theory Spec2Isabelle
  imports Complex_Main "HOL-Library.Log_Nat"
begin

section \<open>JavaScript numbers\<close>

text \<open>
  The script \<^verbatim>\<open>scripts/fetch_silverware_week.mjs\<close> computes with JavaScript numbers,
  that is IEEE-754 binary64 values. A number is modelled as a finite rational, one of the
  two infinities or NaN. Every arithmetic result is rounded to the nearest binary64 value
  (ties to even, 53 bits of precision, gradual underflow below \<open>2^-1022\<close>, overflow to
  infinity from \<open>2^1024\<close>). The sign of zero is not modelled: the script never observes it.
\<close>

datatype jsnum = Fin rat | PInf | NInf | NaN

definition pow2 :: "int \<Rightarrow> rat" where
  "pow2 e = (if 0 \<le> e then 2 ^ nat e else 1 / 2 ^ nat (- e))"

definition ilog2 :: "rat \<Rightarrow> int" where
  \<comment> \<open>for \<open>0 < q\<close>: the exponent \<open>e\<close> with \<open>2^e \<le> q < 2^(e+1)\<close>\<close>
  "ilog2 q = (if 1 \<le> q then bitlen \<lfloor>q\<rfloor> - 1 else - bitlen (\<lceil>1 / q\<rceil> - 1))"

definition round_even :: "rat \<Rightarrow> int" where
  "round_even r =
     (let f = \<lfloor>r\<rfloor>; d = r - of_int f
      in if d < 1 / 2 then f else if 1 / 2 < d then f + 1
         else if even f then f else f + 1)"

definition fl_pos :: "rat \<Rightarrow> jsnum" where
  "fl_pos q =
     (let e = max (ilog2 q) (- 1022); ulp = pow2 (e - 52);
          v = of_int (round_even (q / ulp)) * ulp
      in if pow2 1024 \<le> v then PInf else Fin v)"

fun jneg :: "jsnum \<Rightarrow> jsnum" where
  "jneg (Fin q) = Fin (- q)"
| "jneg PInf = NInf"
| "jneg NInf = PInf"
| "jneg NaN = NaN"

definition fl :: "rat \<Rightarrow> jsnum" where
  "fl q = (if q = 0 then Fin 0 else if 0 < q then fl_pos q else jneg (fl_pos (- q)))"

text \<open>\<^verbatim>\<open>a + b\<close>\<close>

fun jadd :: "jsnum \<Rightarrow> jsnum \<Rightarrow> jsnum" where
  "jadd NaN _ = NaN"
| "jadd _ NaN = NaN"
| "jadd PInf NInf = NaN"
| "jadd NInf PInf = NaN"
| "jadd PInf _ = PInf"
| "jadd _ PInf = PInf"
| "jadd NInf _ = NInf"
| "jadd _ NInf = NInf"
| "jadd (Fin a) (Fin b) = fl (a + b)"

text \<open>The sign of a number, for products and quotients: \<open>1\<close>, \<open>0\<close> or \<open>-1\<close>.\<close>

fun jsgn :: "jsnum \<Rightarrow> int" where
  "jsgn (Fin q) = (if 0 < q then 1 else if q < 0 then - 1 else 0)"
| "jsgn PInf = 1"
| "jsgn NInf = - 1"
| "jsgn NaN = 0"

definition inf_of_sign :: "int \<Rightarrow> jsnum" where
  "inf_of_sign s = (if 0 < s then PInf else if s < 0 then NInf else NaN)"

text \<open>\<^verbatim>\<open>a * b\<close>\<close>

fun jmul :: "jsnum \<Rightarrow> jsnum \<Rightarrow> jsnum" where
  "jmul NaN _ = NaN"
| "jmul _ NaN = NaN"
| "jmul (Fin a) (Fin b) = fl (a * b)"
| "jmul a b = inf_of_sign (jsgn a * jsgn b)"

text \<open>\<^verbatim>\<open>a / b\<close>; a zero divisor counts as \<open>+0\<close>.\<close>

fun jdiv :: "jsnum \<Rightarrow> jsnum \<Rightarrow> jsnum" where
  "jdiv NaN _ = NaN"
| "jdiv _ NaN = NaN"
| "jdiv (Fin a) (Fin b) = (if b = 0 then inf_of_sign (jsgn (Fin a)) else fl (a / b))"
| "jdiv (Fin a) _ = Fin 0"
| "jdiv a (Fin b) = inf_of_sign (jsgn a * (if b < 0 then - 1 else 1))"
| "jdiv _ _ = NaN"

text \<open>\<^verbatim>\<open>Math.max(a, b)\<close>: NaN when either argument is NaN.\<close>

fun jmax :: "jsnum \<Rightarrow> jsnum \<Rightarrow> jsnum" where
  "jmax NaN _ = NaN"
| "jmax _ NaN = NaN"
| "jmax PInf _ = PInf"
| "jmax _ PInf = PInf"
| "jmax NInf b = b"
| "jmax a NInf = a"
| "jmax (Fin a) (Fin b) = Fin (max a b)"

text \<open>
  \<^verbatim>\<open>Math.round(x)\<close>: the integer nearest to \<open>x\<close>, a tie going up. The result is exact:
  the nearest integer of a binary64 value is a binary64 value.
\<close>

fun Math_round :: "jsnum \<Rightarrow> jsnum" where
  "Math_round (Fin q) = Fin (of_int \<lfloor>q + 1 / 2\<rfloor>)"
| "Math_round x = x"


section \<open>JavaScript values\<close>

text \<open>
  The upstream API answers with JSON; a parsed body is a value of \<open>jsval\<close>. An object is
  the list of its properties, read with \<open>map_of\<close>. \<open>JUndef\<close> is what reading an absent
  property gives. Strings are modelled over ASCII.
\<close>

datatype jsval =
    JUndef
  | JNull
  | JBool bool
  | JNum jsnum
  | JStr string
  | JArr "jsval list"
  | JObj "(string \<times> jsval) list"

text \<open>Truthiness, as \<^verbatim>\<open>||\<close>, \<^verbatim>\<open>? :\<close> and \<^verbatim>\<open>filter(Boolean)\<close> test it.\<close>

fun truthy :: "jsval \<Rightarrow> bool" where
  "truthy JUndef = False"
| "truthy JNull = False"
| "truthy (JBool b) = b"
| "truthy (JNum (Fin q)) = (q \<noteq> 0)"
| "truthy (JNum NaN) = False"
| "truthy (JNum PInf) = True"
| "truthy (JNum NInf) = True"
| "truthy (JStr s) = (s \<noteq> [])"
| "truthy (JArr xs) = True"
| "truthy (JObj kvs) = True"

text \<open>\<^verbatim>\<open>a || b\<close> and \<^verbatim>\<open>a ?? b\<close>\<close>

definition js_or :: "jsval \<Rightarrow> jsval \<Rightarrow> jsval" where
  "js_or a b = (if truthy a then a else b)"

definition js_nullish :: "jsval \<Rightarrow> jsval \<Rightarrow> jsval" where
  "js_nullish a b = (if a = JUndef \<or> a = JNull then b else a)"

text \<open>
  \<^verbatim>\<open>o?.k\<close> for the property names the script reads. None of them is a property of a
  string, number, boolean or array, so only an object can answer.
\<close>

fun get :: "jsval \<Rightarrow> string \<Rightarrow> jsval" where
  "get (JObj kvs) k = (case map_of kvs k of Some v \<Rightarrow> v | None \<Rightarrow> JUndef)"
| "get v k = JUndef"

text \<open>\<^verbatim>\<open>Array.isArray(v)\<close>\<close>

fun isArray :: "jsval \<Rightarrow> bool" where
  "isArray (JArr xs) = True"
| "isArray v = False"

subsection \<open>Conversion to string\<close>

text \<open>
  \<^verbatim>\<open>String(v)\<close>. How a finite number prints (the shortest decimal that reads back as the
  same binary64 value) is left open: the function \<open>n2s\<close> stands for it, and every theorem
  below holds for each \<open>n2s\<close>.
\<close>

fun num_to_string :: "(rat \<Rightarrow> string) \<Rightarrow> jsnum \<Rightarrow> string" where
  "num_to_string n2s (Fin q) = n2s q"
| "num_to_string n2s PInf = ''Infinity''"
| "num_to_string n2s NInf = ''-Infinity''"
| "num_to_string n2s NaN = ''NaN''"

fun join_comma :: "string list \<Rightarrow> string" where
  "join_comma [] = []"
| "join_comma [s] = s"
| "join_comma (s # t # ts) = s @ '','' @ join_comma (t # ts)"

fun js_String :: "(rat \<Rightarrow> string) \<Rightarrow> jsval \<Rightarrow> string" where
  "js_String n2s JUndef = ''undefined''"
| "js_String n2s JNull = ''null''"
| "js_String n2s (JBool b) = (if b then ''true'' else ''false'')"
| "js_String n2s (JNum n) = num_to_string n2s n"
| "js_String n2s (JStr s) = s"
| "js_String n2s (JArr xs) =
     join_comma (map (\<lambda>x. if x = JUndef \<or> x = JNull then [] else js_String n2s x) xs)"
| "js_String n2s (JObj kvs) = ''[object Object]''"

text \<open>\<^verbatim>\<open>s.toLowerCase()\<close> and \<^verbatim>\<open>s.trim()\<close>\<close>

definition lower_char :: "char \<Rightarrow> char" where
  "lower_char c =
     (if (65::nat) \<le> of_char c \<and> of_char c \<le> (90::nat)
      then char_of (of_char c + (32::nat)) else c)"

definition toLowerCase :: "string \<Rightarrow> string" where
  "toLowerCase s = map lower_char s"

definition is_ws :: "char \<Rightarrow> bool" where
  "is_ws c = (c \<in> set [CHR 0x09, CHR 0x0A, CHR 0x0B, CHR 0x0C, CHR 0x0D, CHR 0x20, CHR 0xA0])"

definition trim :: "string \<Rightarrow> string" where
  "trim s = rev (dropWhile is_ws (rev (dropWhile is_ws s)))"

subsection \<open>Conversion to number\<close>

fun index_of :: "'a \<Rightarrow> 'a list \<Rightarrow> nat option" where
  "index_of x [] = None"
| "index_of x (y # ys) = (if x = y then Some 0 else map_option Suc (index_of x ys))"

definition dec_digit :: "char \<Rightarrow> nat option" where
  "dec_digit c = index_of c ''0123456789''"

definition hex_digit :: "char \<Rightarrow> nat option" where
  "hex_digit c =
     (case index_of c ''0123456789abcdef'' of
        Some d \<Rightarrow> Some d
      | None \<Rightarrow> map_option (\<lambda>d. d + 10) (index_of c ''ABCDEF''))"

definition digit_base :: "nat \<Rightarrow> char \<Rightarrow> nat option" where
  "digit_base b c =
     (case hex_digit c of None \<Rightarrow> None | Some d \<Rightarrow> if d < b then Some d else None)"

fun digits_acc :: "nat \<Rightarrow> int \<Rightarrow> string \<Rightarrow> int option" where
  "digits_acc b n [] = Some n"
| "digits_acc b n (c # cs) =
     (case digit_base b c of None \<Rightarrow> None | Some d \<Rightarrow> digits_acc b (int b * n + int d) cs)"

text \<open>The value of a non-empty string of digits in base \<open>b\<close>.\<close>

definition digits_val :: "nat \<Rightarrow> string \<Rightarrow> int option" where
  "digits_val b s = (if s = [] then None else digits_acc b 0 s)"

definition is_dec :: "char \<Rightarrow> bool" where
  "is_dec c = (dec_digit c \<noteq> None)"

definition dec_val :: "string \<Rightarrow> int" where
  "dec_val s =
     foldl (\<lambda>n c. 10 * n + (case dec_digit c of Some d \<Rightarrow> int d | None \<Rightarrow> 0)) 0 s"

definition pow10 :: "int \<Rightarrow> rat" where
  "pow10 e = (if 0 \<le> e then 10 ^ nat e else 1 / 10 ^ nat (- e))"

text \<open>The exponent part of a decimal literal: nothing, or \<^verbatim>\<open>e\<close>, a sign and digits.\<close>

definition exponent_part :: "string \<Rightarrow> int option" where
  "exponent_part s =
     (case s of
        [] \<Rightarrow> Some 0
      | c # r \<Rightarrow>
          if c = CHR ''e'' \<or> c = CHR ''E'' then
            (case r of
               [] \<Rightarrow> None
             | d # r' \<Rightarrow>
                 if d = CHR ''+'' then digits_val 10 r'
                 else if d = CHR ''-'' then map_option uminus (digits_val 10 r')
                 else digits_val 10 r)
          else None)"

definition unsigned_decimal :: "string \<Rightarrow> jsnum" where
  "unsigned_decimal s =
     (if s = ''Infinity'' then PInf
      else
        let ip = takeWhile is_dec s; r1 = dropWhile is_dec s;
            dot = (case r1 of [] \<Rightarrow> False | c # r \<Rightarrow> c = CHR ''.'');
            fp = (if dot then takeWhile is_dec (drop 1 r1) else []);
            r2 = (if dot then dropWhile is_dec (drop 1 r1) else r1)
        in if ip = [] \<and> fp = [] then NaN
           else case exponent_part r2 of
                  None \<Rightarrow> NaN
                | Some ex \<Rightarrow>
                    fl ((of_int (dec_val ip) + of_int (dec_val fp) / 10 ^ length fp) * pow10 ex))"

definition str_decimal :: "string \<Rightarrow> jsnum" where
  "str_decimal s =
     (case s of
        [] \<Rightarrow> NaN
      | c # r \<Rightarrow>
          if c = CHR ''+'' then unsigned_decimal r
          else if c = CHR ''-'' then jneg (unsigned_decimal r)
          else unsigned_decimal s)"

definition radix_prefix :: "string \<Rightarrow> nat option" where
  "radix_prefix s =
     (case s of
        z # x # r \<Rightarrow>
          if z \<noteq> CHR ''0'' then None
          else if x = CHR ''x'' \<or> x = CHR ''X'' then Some 16
          else if x = CHR ''o'' \<or> x = CHR ''O'' then Some 8
          else if x = CHR ''b'' \<or> x = CHR ''B'' then Some 2
          else None
      | _ \<Rightarrow> None)"

text \<open>\<^verbatim>\<open>Number(s)\<close> for a string: white space is trimmed and the empty string is \<open>0\<close>.\<close>

definition StringToNumber :: "string \<Rightarrow> jsnum" where
  "StringToNumber s =
     (let t = trim s
      in if t = [] then Fin 0
         else case radix_prefix t of
                Some b \<Rightarrow>
                  (case digits_val b (drop 2 t) of None \<Rightarrow> NaN | Some n \<Rightarrow> fl (of_int n))
              | None \<Rightarrow> str_decimal t)"

text \<open>\<^verbatim>\<open>Number(v)\<close>: an array or object is converted through its string.\<close>

fun toNumber :: "(rat \<Rightarrow> string) \<Rightarrow> jsval \<Rightarrow> jsnum" where
  "toNumber n2s JUndef = NaN"
| "toNumber n2s JNull = Fin 0"
| "toNumber n2s (JBool b) = Fin (if b then 1 else 0)"
| "toNumber n2s (JNum n) = n"
| "toNumber n2s (JStr s) = StringToNumber s"
| "toNumber n2s v = StringToNumber (js_String n2s v)"

section \<open>The flexible extractors\<close>

text \<open>
  \<^verbatim>\<open>const num = (v) => (typeof v === "number" ? v : (v ? Number(v) : 0)) || 0;\<close>
\<close>

definition num_or :: "jsnum \<Rightarrow> jsnum \<Rightarrow> jsnum" where
  \<comment> \<open>\<^verbatim>\<open>a || b\<close> on two numbers\<close>
  "num_or a b = (if truthy (JNum a) then a else b)"

definition num :: "(rat \<Rightarrow> string) \<Rightarrow> jsval \<Rightarrow> jsnum" where
  "num n2s v =
     num_or (case v of JNum n \<Rightarrow> n | _ \<Rightarrow> if truthy v then toNumber n2s v else Fin 0) (Fin 0)"

definition orderLines :: "jsval \<Rightarrow> jsval" where
  "orderLines o' =
     js_or (get o' ''Lines'')
       (js_or (get o' ''Items'')
         (js_or (get o' ''OrderLines'')
           (js_or (get o' ''OrderItems'')
             (js_or (get o' ''CheckLines'') (JArr [])))))"

definition lineTotal :: "(rat \<Rightarrow> string) \<Rightarrow> jsval \<Rightarrow> jsnum" where
  "lineTotal n2s line =
     num_or (num n2s (get line ''NetTotal''))
       (num_or (num n2s (get line ''LineTotal''))
         (num_or (num n2s (get line ''ExtendedPrice''))
           (num_or (num n2s (get line ''Total''))
             (num n2s (get line ''Amount'')))))"

definition lineDiscount :: "(rat \<Rightarrow> string) \<Rightarrow> jsval \<Rightarrow> jsnum" where
  "lineDiscount n2s line =
     num_or (num n2s (get line ''Discount''))
       (num_or (num n2s (get line ''DiscountAmount'')) (Fin 0))"

definition orderHeaderDiscount :: "(rat \<Rightarrow> string) \<Rightarrow> jsval \<Rightarrow> jsnum" where
  "orderHeaderDiscount n2s o' =
     num_or (num n2s (get o' ''DiscountTotal''))
       (num_or (num n2s (get o' ''PromotionsTotal''))
         (num_or (num n2s (get o' ''CheckDiscountTotal''))
           (num_or (num n2s (get o' ''TotalDiscount'')) (Fin 0))))"

definition lineCategoryName :: "(rat \<Rightarrow> string) \<Rightarrow> jsval \<Rightarrow> string" where
  "lineCategoryName n2s line =
     toLowerCase (js_String n2s
       (js_or (get line ''SalesCategoryName'')
         (js_or (get line ''CategoryName'')
           (js_or (get line ''MenuGroup'')
             (js_or (get line ''Family'')
               (js_or (get line ''Category'') (JStr [])))))))"

text \<open>
  \<^verbatim>\<open>FOOD_HINTS = (process.env.FOOD_CATEGORY_HINTS || "food,kitchen").split(",")
       .map(s => s.trim().toLowerCase()).filter(Boolean)\<close>;
  the argument is the environment variable, \<open>None\<close> when it is not set.
\<close>

definition env_or :: "string option \<Rightarrow> string \<Rightarrow> string" where
  "env_or v d = (case v of None \<Rightarrow> d | Some s \<Rightarrow> if s = [] then d else s)"

fun split_on :: "char \<Rightarrow> string \<Rightarrow> string list" where
  "split_on c [] = [[]]"
| "split_on c (x # xs) =
     (if x = c then [] # split_on c xs
      else case split_on c xs of [] \<Rightarrow> [[x]] | w # ws \<Rightarrow> (x # w) # ws)"

definition FOOD_HINTS :: "string option \<Rightarrow> string list" where
  "FOOD_HINTS env =
     filter (\<lambda>s. s \<noteq> [])
       (map (\<lambda>s. toLowerCase (trim s)) (split_on (CHR '','') (env_or env ''food,kitchen'')))"

text \<open>\<^verbatim>\<open>name.includes(h)\<close>\<close>

fun starts_with :: "string \<Rightarrow> string \<Rightarrow> bool" where
  "starts_with s [] = True"
| "starts_with [] (c # h) = False"
| "starts_with (x # s) (c # h) = (x = c \<and> starts_with s h)"

fun str_includes :: "string \<Rightarrow> string \<Rightarrow> bool" where
  "str_includes [] h = (h = [])"
| "str_includes (x # s) h = (starts_with (x # s) h \<or> str_includes s h)"

definition looksLikeFood :: "(rat \<Rightarrow> string) \<Rightarrow> string list \<Rightarrow> jsval \<Rightarrow> bool" where
  "looksLikeFood n2s hints line = list_ex (\<lambda>h. str_includes (lineCategoryName n2s line) h) hints"

definition isVoided :: "(rat \<Rightarrow> string) \<Rightarrow> jsval \<Rightarrow> bool" where
  "isVoided n2s line =
     (let s = toLowerCase (js_String n2s (js_or (get line ''Status'') (JStr [])))
      in get line ''IsVoid'' = JBool True \<or> get line ''Voided'' = JBool True
         \<or> s = ''void'' \<or> s = ''voided'')"

section \<open>Dates\<close>

text \<open>
  A \<^verbatim>\<open>Date\<close> holds a time value: the milliseconds since 1970-01-01T00:00:00Z, or NaN
  for an invalid date (\<open>None\<close> here). The functions below are the ones of the ECMAScript
  specification that the script reaches through \<^verbatim>\<open>new Date(string)\<close>,
  \<^verbatim>\<open>getUTCMinutes\<close>, \<^verbatim>\<open>setUTCMinutes\<close>, \<^verbatim>\<open>getUTCDate\<close>, \<^verbatim>\<open>setUTCDate\<close> and
  \<^verbatim>\<open>toISOString\<close>.
\<close>

definition msPerDay :: int where
  "msPerDay = 86400000"

definition Day :: "int \<Rightarrow> int" where
  "Day t = t div msPerDay"

definition TimeWithinDay :: "int \<Rightarrow> int" where
  "TimeWithinDay t = t mod msPerDay"

definition DaysInYear :: "int \<Rightarrow> int" where
  "DaysInYear y =
     (if y mod 4 \<noteq> 0 then 365 else if y mod 100 \<noteq> 0 then 366
      else if y mod 400 \<noteq> 0 then 365 else 366)"

definition DayFromYear :: "int \<Rightarrow> int" where
  "DayFromYear y =
     365 * (y - 1970) + (y - 1969) div 4 - (y - 1901) div 100 + (y - 1601) div 400"

text \<open>The leap day of a year: \<open>1\<close> in a leap year, else \<open>0\<close>.\<close>

definition InLeapYear :: "int \<Rightarrow> int" where
  "InLeapYear y = (if DaysInYear y = 366 then 1 else 0)"

text \<open>The day of the year on which month \<open>m\<close> (from \<open>0\<close>) starts.\<close>

definition month_start :: "int \<Rightarrow> int \<Rightarrow> int" where
  "month_start m leap =
     (if m \<le> 0 then 0 else if m = 1 then 31 else if m = 2 then 59 + leap
      else if m = 3 then 90 + leap else if m = 4 then 120 + leap
      else if m = 5 then 151 + leap else if m = 6 then 181 + leap
      else if m = 7 then 212 + leap else if m = 8 then 243 + leap
      else if m = 9 then 273 + leap else if m = 10 then 304 + leap
      else 334 + leap)"

definition month_of_day :: "int \<Rightarrow> int \<Rightarrow> int" where
  "month_of_day d leap =
     (if d < 31 then 0 else if d < 59 + leap then 1 else if d < 90 + leap then 2
      else if d < 120 + leap then 3 else if d < 151 + leap then 4
      else if d < 181 + leap then 5 else if d < 212 + leap then 6
      else if d < 243 + leap then 7 else if d < 273 + leap then 8
      else if d < 304 + leap then 9 else if d < 334 + leap then 10 else 11)"

text \<open>
  \<open>YearFromTime\<close> is the largest year whose first day is not after the day of \<open>t\<close>:
  the search goes down from a year that is not too small.
\<close>

function year_down :: "int \<Rightarrow> int \<Rightarrow> int" where
  "year_down d y = (if DayFromYear y \<le> d then y else year_down d (y - 1))"
  by pat_completeness auto

lemma div_succ:
  fixes n k :: int
  assumes "1 < k"
  shows "(n + 1) div k = n div k + (if (n + 1) mod k = 0 then 1 else 0)"
proof -
  define q where "q = n div k"
  define r where "r = n mod k"
  have n: "n = q * k + r" and r: "0 \<le> r" "r < k"
    using assms by (simp_all add: q_def r_def)
  show ?thesis
  proof (cases "r + 1 = k")
    case True
    then have e: "n + 1 = (q + 1) * k" using n by (simp add: algebra_simps)
    have "(n + 1) div k = q + 1" "(n + 1) mod k = 0"
      using assms unfolding e by simp_all
    then show ?thesis by (simp add: q_def)
  next
    case False
    then have r1: "0 \<le> r + 1" "r + 1 < k" using r by auto
    have e: "n + 1 = (r + 1) + q * k" using n by simp
    have "(n + 1) div k = q" "(n + 1) mod k = r + 1"
      unfolding e using r1 by (simp_all add: div_pos_pos_trivial mod_pos_pos_trivial)
    then show ?thesis using r by (simp add: q_def)
  qed
qed
lemma mod_sub_mult: "(y - c * k) mod k = y mod (k::int)"
  by (metis mod_diff_right_eq mod_mult_self2_is_0 diff_zero)
lemma leap_mods: "(y - 1968) mod 4 = y mod (4::int)" "(y - 1900) mod 100 = y mod (100::int)"
  "(y - 1600) mod 400 = y mod (400::int)"
  using mod_sub_mult[of y 492 4] mod_sub_mult[of y 19 100] mod_sub_mult[of y 4 400] by simp_all
lemma leap_dvd: "y mod 400 = 0 \<Longrightarrow> y mod (100::int) = 0" "y mod 100 = 0 \<Longrightarrow> y mod (4::int) = 0"
proof -
  have "(100::int) dvd 400" "(4::int) dvd 100" by simp_all
  then show "y mod 400 = 0 \<Longrightarrow> y mod (100::int) = 0" "y mod 100 = 0 \<Longrightarrow> y mod (4::int) = 0"
    by (meson dvd_trans mod_eq_0_iff_dvd)+
qed
lemma DayFromYear_Suc: "DayFromYear (y + 1) = DayFromYear y + DaysInYear y"
proof -
  have e: "y + 1 - 1969 = y - 1969 + 1" "y + 1 - 1901 = y - 1901 + 1" "y + 1 - 1601 = y - 1601 + 1"
    "y - 1969 + 1 = y - 1968" "y - 1901 + 1 = y - 1900" "y - 1601 + 1 = y - 1600"
    by simp_all
  have a: "(y + 1 - 1969) div 4 = (y - 1969) div 4 + (if y mod 4 = 0 then 1 else 0)"
    using div_succ[of 4 "y - 1969"] unfolding e leap_mods by simp
  have b: "(y + 1 - 1901) div 100 = (y - 1901) div 100 + (if y mod 100 = 0 then 1 else 0)"
    using div_succ[of 100 "y - 1901"] unfolding e leap_mods by simp
  have c: "(y + 1 - 1601) div 400 = (y - 1601) div 400 + (if y mod 400 = 0 then 1 else 0)"
    using div_succ[of 400 "y - 1601"] unfolding e leap_mods by simp
  show ?thesis
    unfolding DayFromYear_def DaysInYear_def a b c using leap_dvd[of y] by auto
qed
lemma DayFromYear_less: "DayFromYear (y - 1) < DayFromYear y"
  using DayFromYear_Suc[of "y - 1"] by (simp add: DaysInYear_def split: if_splits)
termination year_down
proof (relation "measure (\<lambda>(d, y). nat (DayFromYear y - d))")
  show "wf (measure (\<lambda>(d, y). nat (DayFromYear y - d)))"
    by simp
next
  fix d y :: int
  assume "\<not> DayFromYear y \<le> d"
  then show "((d, y - 1), (d, y)) \<in> measure (\<lambda>(d, y). nat (DayFromYear y - d))"
    using DayFromYear_less [of y] by simp
qed

declare year_down.simps [simp del]

definition YearFromTime :: "int \<Rightarrow> int" where
  "YearFromTime t =
     (let d = Day t
      in year_down d (if 0 \<le> d then 1970 + d div 365 else 1970 + d div 366))"

definition DayWithinYear :: "int \<Rightarrow> int" where
  "DayWithinYear t = Day t - DayFromYear (YearFromTime t)"

definition MonthFromTime :: "int \<Rightarrow> int" where
  "MonthFromTime t = month_of_day (DayWithinYear t) (InLeapYear (YearFromTime t))"

definition DateFromTime :: "int \<Rightarrow> int" where
  "DateFromTime t =
     DayWithinYear t - month_start (MonthFromTime t) (InLeapYear (YearFromTime t)) + 1"

definition HourFromTime :: "int \<Rightarrow> int" where
  "HourFromTime t = (t div 3600000) mod 24"

definition MinFromTime :: "int \<Rightarrow> int" where
  "MinFromTime t = (t div 60000) mod 60"

definition SecFromTime :: "int \<Rightarrow> int" where
  "SecFromTime t = (t div 1000) mod 60"

definition msFromTime :: "int \<Rightarrow> int" where
  "msFromTime t = t mod 1000"

definition MakeTime :: "int \<Rightarrow> int \<Rightarrow> int \<Rightarrow> int \<Rightarrow> int" where
  "MakeTime h m s ms = h * 3600000 + m * 60000 + s * 1000 + ms"

definition MakeDay :: "int \<Rightarrow> int \<Rightarrow> int \<Rightarrow> int" where
  "MakeDay y m dt =
     (let ym = y + m div 12; mn = m mod 12
      in DayFromYear ym + month_start mn (InLeapYear ym) + dt - 1)"

definition MakeDate :: "int \<Rightarrow> int \<Rightarrow> int" where
  "MakeDate day time = day * msPerDay + time"

definition TimeClip :: "int \<Rightarrow> int option" where
  "TimeClip t = (if 8640000000000000 < \<bar>t\<bar> then None else Some t)"

subsection \<open>Reading and printing a date\<close>

text \<open>
  \<^verbatim>\<open>new Date(string)\<close> for the strings the script builds: a date (\<^verbatim>\<open>YYYY\<close>, \<^verbatim>\<open>YYYY-MM\<close>
  or \<^verbatim>\<open>YYYY-MM-DD\<close>, the year also as a sign and six digits) followed by
  \<^verbatim>\<open>THH:mm:ss\<close>, an optional \<^verbatim>\<open>.sss\<close> and \<^verbatim>\<open>Z\<close>. Any other string is an invalid
  date here; what an engine makes of a string outside the ECMAScript format is its own
  choice. As V8 does, a day up to 31 is accepted in every month and carries over.
\<close>

definition read_digits :: "nat \<Rightarrow> string \<Rightarrow> (int \<times> string) option" where
  "read_digits n s =
     (if length s < n \<or> \<not> list_all is_dec (take n s) then None
      else Some (dec_val (take n s), drop n s))"

definition read_year :: "string \<Rightarrow> (int \<times> string) option" where
  "read_year s =
     (case s of
        [] \<Rightarrow> None
      | c # r \<Rightarrow>
          if c = CHR ''+'' then read_digits 6 r
          else if c = CHR ''-'' then
            (case read_digits 6 r of
               None \<Rightarrow> None
             | Some (y, r') \<Rightarrow> if y = 0 then None else Some (- y, r'))
          else read_digits 4 s)"

text \<open>A separator character followed by two digits.\<close>

definition read_sep2 :: "char \<Rightarrow> string \<Rightarrow> (int \<times> string) option" where
  "read_sep2 c s = (case s of [] \<Rightarrow> None | x # r \<Rightarrow> if x = c then read_digits 2 r else None)"

definition read_date :: "string \<Rightarrow> (int \<times> int \<times> int) option" where
  "read_date s =
     (case read_year s of
        None \<Rightarrow> None
      | Some (y, r) \<Rightarrow>
          if r = [] then Some (y, 1, 1)
          else (case read_sep2 (CHR ''-'') r of
                  None \<Rightarrow> None
                | Some (m, r') \<Rightarrow>
                    if r' = [] then Some (y, m, 1)
                    else (case read_sep2 (CHR ''-'') r' of
                            None \<Rightarrow> None
                          | Some (d, r'') \<Rightarrow> if r'' = [] then Some (y, m, d) else None)))"

text \<open>The fraction of a second: \<^verbatim>\<open>Z\<close> alone, or \<^verbatim>\<open>.sss\<close> and \<^verbatim>\<open>Z\<close>.\<close>

definition read_ms :: "string \<Rightarrow> int option" where
  "read_ms s =
     (if s = ''Z'' then Some 0
      else (case s of
              [] \<Rightarrow> None
            | x # f \<Rightarrow>
                if x \<noteq> CHR ''.'' then None
                else (case read_digits 3 f of
                        None \<Rightarrow> None
                      | Some (ms, z) \<Rightarrow> if z = ''Z'' then Some ms else None)))"

definition read_time :: "string \<Rightarrow> (int \<times> int \<times> int \<times> int) option" where
  "read_time s =
     (case read_sep2 (CHR ''T'') s of
        None \<Rightarrow> None
      | Some (h, r) \<Rightarrow>
          (case read_sep2 (CHR '':'') r of
             None \<Rightarrow> None
           | Some (m, r') \<Rightarrow>
               (case read_sep2 (CHR '':'') r' of
                  None \<Rightarrow> None
                | Some (sec, r'') \<Rightarrow>
                    (case read_ms r'' of
                       None \<Rightarrow> None
                     | Some ms \<Rightarrow> Some (h, m, sec, ms)))))"

definition Date_parse :: "string \<Rightarrow> int option" where
  "Date_parse s =
     (case read_date (takeWhile (\<lambda>c. c \<noteq> CHR ''T'') s) of
        None \<Rightarrow> None
      | Some (y, m, d) \<Rightarrow>
          (case read_time (dropWhile (\<lambda>c. c \<noteq> CHR ''T'') s) of
             None \<Rightarrow> None
           | Some (h, mi, sec, ms) \<Rightarrow>
               if m < 1 \<or> 12 < m \<or> d < 1 \<or> 31 < d \<or> 59 < mi \<or> 59 < sec
                  \<or> \<not> (h < 24 \<or> (h = 24 \<and> mi = 0 \<and> sec = 0 \<and> ms = 0))
               then None
               else TimeClip (MakeDate (MakeDay y (m - 1) d) (MakeTime h mi sec ms))))"

text \<open>A number in \<open>n\<close> decimal digits, with leading zeros.\<close>

fun pad :: "nat \<Rightarrow> int \<Rightarrow> string" where
  "pad 0 k = []"
| "pad (Suc n) k = pad n (k div 10) @ [''0123456789'' ! nat (k mod 10)]"

definition year_string :: "int \<Rightarrow> string" where
  "year_string y =
     (if 0 \<le> y \<and> y \<le> 9999 then pad 4 y
      else (if y < 0 then ''-'' else ''+'') @ pad 6 \<bar>y\<bar>)"

text \<open>\<^verbatim>\<open>d.toISOString()\<close> of a valid date.\<close>

definition toISOString :: "int \<Rightarrow> string" where
  "toISOString t =
     year_string (YearFromTime t) @ ''-'' @ pad 2 (MonthFromTime t + 1) @ ''-''
     @ pad 2 (DateFromTime t) @ ''T'' @ pad 2 (HourFromTime t) @ '':''
     @ pad 2 (MinFromTime t) @ '':'' @ pad 2 (SecFromTime t) @ ''.''
     @ pad 3 (msFromTime t) @ ''Z''"

subsection \<open>The week window\<close>

datatype error =
    FetchError string
  | TypeError string
  | RangeError string
  | WriteError string

text \<open>\<^verbatim>\<open>d.setUTCMinutes(d.getUTCMinutes() - tzOffsetMin)\<close> on a valid date\<close>

definition setUTCMinutes :: "int \<Rightarrow> int \<Rightarrow> int option" where
  "setUTCMinutes t m =
     TimeClip (MakeDate (Day t) (MakeTime (HourFromTime t) m (SecFromTime t) (msFromTime t)))"

text \<open>\<^verbatim>\<open>d.setUTCDate(dt)\<close> on a valid date\<close>

definition setUTCDate :: "int \<Rightarrow> int \<Rightarrow> int option" where
  "setUTCDate t dt =
     TimeClip (MakeDate (MakeDay (YearFromTime t) (MonthFromTime t) dt) (TimeWithinDay t))"

text \<open>
  The inner function \<^verbatim>\<open>mk\<close>. The offset is \<open>None\<close> when it is NaN; \<^verbatim>\<open>toISOString\<close>
  throws a \<^verbatim>\<open>RangeError\<close> on an invalid date.
\<close>

definition mk :: "int option \<Rightarrow> string \<Rightarrow> error + string" where
  "mk tzOffsetMin s =
     (case Date_parse (s @ ''T00:00:00Z'') of
        None \<Rightarrow> Inl (RangeError ''Invalid time value'')
      | Some d \<Rightarrow>
          (case tzOffsetMin of
             None \<Rightarrow> Inl (RangeError ''Invalid time value'')
           | Some tz \<Rightarrow>
               (case setUTCMinutes d (MinFromTime d - tz) of
                  None \<Rightarrow> Inl (RangeError ''Invalid time value'')
                | Some d' \<Rightarrow> Inr (toISOString d'))))"

definition rangeForWeekISO :: "string \<Rightarrow> int option \<Rightarrow> error + (string \<times> string)" where
  "rangeForWeekISO wk tzOffsetMin =
     (case mk tzOffsetMin wk of
        Inl e \<Rightarrow> Inl e
      | Inr start \<Rightarrow>
          (case Date_parse start of
             None \<Rightarrow> Inl (RangeError ''Invalid time value'')
           | Some endDate \<Rightarrow>
               (case setUTCDate endDate (DateFromTime endDate + 7) of
                  None \<Rightarrow> Inl (RangeError ''Invalid time value'')
                | Some endDate' \<Rightarrow> Inr (start, toISOString endDate'))))"

text \<open>
  \<^verbatim>\<open>TZ_OFFSET_MIN = parseInt(process.env.SILVERWARE_TZ_OFFSET_MINUTES || "0", 10)\<close>:
  leading white space, a sign, then the longest run of digits; NaN when there is none.
\<close>

definition parseInt10 :: "string \<Rightarrow> int option" where
  "parseInt10 s =
     (let t = dropWhile is_ws s;
          neg = (case t of [] \<Rightarrow> False | c # r \<Rightarrow> c = CHR ''-'');
          r = (case t of [] \<Rightarrow> [] | c # r \<Rightarrow> if c = CHR ''-'' \<or> c = CHR ''+'' then r else t);
          ds = takeWhile is_dec r
      in if ds = [] then None else Some (if neg then - dec_val ds else dec_val ds))"

definition TZ_OFFSET_MIN :: "string option \<Rightarrow> int option" where
  "TZ_OFFSET_MIN env = parseInt10 (env_or env ''0'')"

section \<open>The Silverware API\<close>

text \<open>
  A request is the base address without a trailing slash, the bearer token, the verb
  and the endpoint with its parameters (\<^verbatim>\<open>StartDate\<close>, \<^verbatim>\<open>EndDate\<close>, \<^verbatim>\<open>Page\<close> for
  \<^verbatim>\<open>GetOrders\<close>, the page size being the constant 500; \<^verbatim>\<open>OrderID\<close> for \<^verbatim>\<open>GetOrder\<close>).
  The upstream server is a function from the requests made so far and the next request
  to its answer: the parsed JSON body, or the message of the error that \<^verbatim>\<open>swFetch\<close>
  throws (transport failure, a status that is not ok, a body that is not JSON).
  The page counter and the order counter are natural numbers; they stay far below
  \<open>2^53\<close>, where JavaScript counts exactly.
\<close>

datatype verb = POST | GET

datatype endpoint = GetOrders string string nat | GetOrder jsval

datatype request = Request string string verb endpoint

type_synonym upstream = "request list \<Rightarrow> request \<Rightarrow> string + jsval"

definition strip_slash :: "string \<Rightarrow> string" where
  \<comment> \<open>\<^verbatim>\<open>base.replace(/\/$/, "")\<close>\<close>
  "strip_slash s = (if s \<noteq> [] \<and> last s = CHR ''/'' then butlast s else s)"

definition swFetch ::
  "upstream \<Rightarrow> request list \<Rightarrow> string \<Rightarrow> string \<Rightarrow> verb \<Rightarrow> endpoint
   \<Rightarrow> request list \<times> (error + jsval)" where
  "swFetch up h base token m ep =
     (let r = Request (strip_slash base) token m ep
      in (h @ [r], case up h r of Inl msg \<Rightarrow> Inl (FetchError msg) | Inr v \<Rightarrow> Inr v))"

text \<open>Both calls try POST first and fall back to GET when the POST throws.\<close>

definition listOrders ::
  "upstream \<Rightarrow> request list \<Rightarrow> string \<Rightarrow> string \<Rightarrow> string \<Rightarrow> string \<Rightarrow> nat
   \<Rightarrow> request list \<times> (error + jsval)" where
  "listOrders up h base token startISO endISO page =
     (case swFetch up h base token POST (GetOrders startISO endISO page) of
        (h1, Inr v) \<Rightarrow> (h1, Inr v)
      | (h1, Inl e) \<Rightarrow> swFetch up h1 base token GET (GetOrders startISO endISO page))"

definition getOrder ::
  "upstream \<Rightarrow> request list \<Rightarrow> string \<Rightarrow> string \<Rightarrow> jsval
   \<Rightarrow> request list \<times> (error + jsval)" where
  "getOrder up h base token orderId =
     (case swFetch up h base token POST (GetOrder orderId) of
        (h1, Inr v) \<Rightarrow> (h1, Inr v)
      | (h1, Inl e) \<Rightarrow> swFetch up h1 base token GET (GetOrder orderId))"

section \<open>The weekly aggregator\<close>

record config =
  cfg_n2s :: "rat \<Rightarrow> string"
  cfg_hints :: "string list"
  cfg_tz :: "int option"

record acc =
  orders :: nat
  food :: jsnum
  voids :: jsnum
  promos :: jsnum

record totals = acc +
  r_start :: string
  r_end :: string

text \<open>The body of \<^verbatim>\<open>for (const ln of lines)\<close>; \<^verbatim>\<open>continue\<close> ends it for a voided line.\<close>

definition lineStep :: "config \<Rightarrow> acc \<Rightarrow> jsval \<Rightarrow> acc" where
  "lineStep c a line =
     (let amt = lineTotal (cfg_n2s c) line
      in if isVoided (cfg_n2s c) line
         then a\<lparr>voids := jadd (voids a) (jmax amt (Fin 0))\<rparr>
         else
           let a1 = (if looksLikeFood (cfg_n2s c) (cfg_hints c) line
                     then a\<lparr>food := jadd (food a) (jmax amt (Fin 0))\<rparr> else a)
           in a1\<lparr>promos := jadd (promos a1) (jmax (lineDiscount (cfg_n2s c) line) (Fin 0))\<rparr>)"

text \<open>
  \<^verbatim>\<open>for (... of v)\<close>: an array gives its elements, a string its characters; any other
  value is not iterable and the loop throws a \<^verbatim>\<open>TypeError\<close>.
\<close>

fun for_of :: "jsval \<Rightarrow> error + jsval list" where
  "for_of (JArr xs) = Inr xs"
| "for_of (JStr s) = Inr (map (\<lambda>ch. JStr [ch]) s)"
| "for_of v = Inl (TypeError ''not iterable'')"

text \<open>The test \<^verbatim>\<open>orderLines(row).length ? ... : ...\<close>\<close>

fun has_length :: "jsval \<Rightarrow> bool" where
  "has_length (JArr xs) = (xs \<noteq> [])"
| "has_length (JStr s) = (s \<noteq> [])"
| "has_length (JObj kvs) = truthy (get (JObj kvs) ''length'')"
| "has_length v = False"

text \<open>The body of \<^verbatim>\<open>for (const row of rows)\<close>.\<close>

definition rowStep ::
  "config \<Rightarrow> upstream \<Rightarrow> string \<Rightarrow> string \<Rightarrow> request list \<Rightarrow> acc \<Rightarrow> jsval
   \<Rightarrow> request list \<times> (error + acc)" where
  "rowStep c up base token h a row =
     (let a1 = a\<lparr>orders := orders a + 1\<rparr>;
          fetched =
            (if has_length (orderLines row) then (h, Inr row)
             else getOrder up h base token
                    (js_nullish (get row ''OrderID'') (js_nullish (get row ''Id'') (get row ''ID''))))
      in case fetched of
           (h1, Inl e) \<Rightarrow> (h1, Inl e)
         | (h1, Inr o') \<Rightarrow>
             (case for_of (orderLines o') of
                Inl e \<Rightarrow> (h1, Inl e)
              | Inr lines \<Rightarrow>
                  (let a2 = foldl (lineStep c) a1 lines
                   in (h1, Inr (a2\<lparr>promos :=
                         jadd (promos a2) (jmax (orderHeaderDiscount (cfg_n2s c) o') (Fin 0))\<rparr>)))))"

fun rowsLoop ::
  "config \<Rightarrow> upstream \<Rightarrow> string \<Rightarrow> string \<Rightarrow> request list \<Rightarrow> acc \<Rightarrow> jsval list
   \<Rightarrow> request list \<times> (error + acc)" where
  "rowsLoop c up base token h a [] = (h, Inr a)"
| "rowsLoop c up base token h a (row # rows) =
     (case rowStep c up base token h a row of
        (h1, Inl e) \<Rightarrow> (h1, Inl e)
      | (h1, Inr a1) \<Rightarrow> rowsLoop c up base token h1 a1 rows)"

text \<open>\<^verbatim>\<open>const rows = payload?.Orders || payload?.Data || payload || [];\<close>\<close>

definition rows_of :: "jsval \<Rightarrow> jsval" where
  "rows_of payload =
     js_or (get payload ''Orders'') (js_or (get payload ''Data'') (js_or payload (JArr [])))"

text \<open>
  The \<^verbatim>\<open>while (more)\<close> loop. It may run forever (an upstream that always answers with
  a full page), so the result is an option: \<open>None\<close> when the loop does not return.
\<close>

partial_function (option) pageLoop ::
  "config \<Rightarrow> upstream \<Rightarrow> string \<Rightarrow> string \<Rightarrow> string \<Rightarrow> string \<Rightarrow> request list \<Rightarrow> nat \<Rightarrow> acc
   \<Rightarrow> (request list \<times> (error + acc)) option" where
  "pageLoop c up base token startISO endISO h page a =
     (case listOrders up h base token startISO endISO page of
        (h1, Inl e) \<Rightarrow> Some (h1, Inl e)
      | (h1, Inr payload) \<Rightarrow>
          (case rows_of payload of
             JArr rows \<Rightarrow>
               if rows = [] then Some (h1, Inr a)
               else (case rowsLoop c up base token h1 a rows of
                       (h2, Inl e) \<Rightarrow> Some (h2, Inl e)
                     | (h2, Inr a2) \<Rightarrow>
                         if 500 \<le> length rows
                         then pageLoop c up base token startISO endISO h2 (page + 1) a2
                         else Some (h2, Inr a2))
           | _ \<Rightarrow> Some (h1, Inr a)))"

definition round2 :: "jsnum \<Rightarrow> jsnum" where
  \<comment> \<open>\<^verbatim>\<open>Math.round(n * 100) / 100\<close>\<close>
  "round2 n = jdiv (Math_round (jmul n (Fin 100))) (Fin 100)"

definition collectForWeek ::
  "config \<Rightarrow> upstream \<Rightarrow> request list \<Rightarrow> string \<Rightarrow> string \<Rightarrow> string
   \<Rightarrow> (request list \<times> (error + totals)) option" where
  "collectForWeek c up h base token weekISO =
     (case rangeForWeekISO weekISO (cfg_tz c) of
        Inl e \<Rightarrow> Some (h, Inl e)
      | Inr (startISO, endISO) \<Rightarrow>
          (case pageLoop c up base token startISO endISO h 1
                  \<lparr>orders = 0, food = Fin 0, voids = Fin 0, promos = Fin 0\<rparr> of
             None \<Rightarrow> None
           | Some (h', Inl e) \<Rightarrow> Some (h', Inl e)
           | Some (h', Inr a) \<Rightarrow>
               Some (h', Inr \<lparr>orders = orders a, food = round2 (food a),
                               voids = round2 (voids a), promos = round2 (promos a),
                               r_start = startISO, r_end = endISO\<rparr>)))"

section \<open>Writing the overrides and the main loop\<close>

text \<open>
  The document store maps a document path to the fields that \<^verbatim>\<open>writeOverrides\<close> sets;
  the write merges, and it sets every one of these fields, so the stored fields are the
  new ones. The environment says for each path whether the write is rejected, and gives
  the time stamp of the write.
\<close>

record override =
  food_sales :: jsnum
  doc_voids :: jsnum
  comps :: jsnum
  doc_orders :: nat
  days_scanned :: nat
  last_run :: string

record env =
  server :: upstream
  set_error :: "string \<Rightarrow> string option"
  clock :: "string \<Rightarrow> string"

definition doc_path :: "string \<Rightarrow> string \<Rightarrow> string" where
  "doc_path locKey weekISO = ''companies/aidan/locations/'' @ locKey @ ''/overrides/'' @ weekISO"

definition writeOverrides ::
  "env \<Rightarrow> (string \<rightharpoonup> override) \<Rightarrow> string \<Rightarrow> string \<Rightarrow> totals
   \<Rightarrow> error + (string \<rightharpoonup> override)" where
  "writeOverrides e st locKey weekISO t =
     (let path = doc_path locKey weekISO
      in case set_error e path of
           Some msg \<Rightarrow> Inl (WriteError msg)
         | None \<Rightarrow>
             Inr (st(path \<mapsto>
               \<lparr>food_sales = food t, doc_voids = voids t, comps = promos t,
                doc_orders = orders t, days_scanned = 7, last_run = clock e path\<rparr>)))"

datatype log_entry = Skipped string | Done string totals | Failed string error

record run_state =
  trace :: "request list"
  store :: "string \<rightharpoonup> override"
  console :: "log_entry list"

record loc_cfg =
  base_url :: "string option"
  api_token :: "string option"

text \<open>An environment variable is falsy when it is not set or empty.\<close>

definition env_set :: "string option \<Rightarrow> bool" where
  "env_set v = (case v of None \<Rightarrow> False | Some s \<Rightarrow> s \<noteq> [])"

text \<open>One round of \<^verbatim>\<open>for (const [locKey, cfg] of Object.entries(LOCS))\<close>.\<close>

definition runLoc ::
  "config \<Rightarrow> env \<Rightarrow> string \<Rightarrow> string \<times> loc_cfg \<Rightarrow> run_state \<Rightarrow> run_state option" where
  "runLoc c e weekISO loc st =
     (case loc of (locKey, cfg) \<Rightarrow>
        if \<not> env_set (base_url cfg) \<or> \<not> env_set (api_token cfg)
        then Some (st\<lparr>console := console st @ [Skipped locKey]\<rparr>)
        else
          (case collectForWeek c (server e) (trace st)
                  (env_or (base_url cfg) []) (env_or (api_token cfg) []) weekISO of
             None \<Rightarrow> None
           | Some (h, Inl err) \<Rightarrow>
               Some (st\<lparr>trace := h, console := console st @ [Failed locKey err]\<rparr>)
           | Some (h, Inr t) \<Rightarrow>
               (case writeOverrides e (store st) locKey weekISO t of
                  Inl err \<Rightarrow>
                    Some (st\<lparr>trace := h, console := console st @ [Failed locKey err]\<rparr>)
                | Inr st' \<Rightarrow>
                    Some (st\<lparr>trace := h, store := st',
                             console := console st @ [Done locKey t]\<rparr>))))"

fun main_loop ::
  "config \<Rightarrow> env \<Rightarrow> string \<Rightarrow> (string \<times> loc_cfg) list \<Rightarrow> run_state \<Rightarrow> run_state option" where
  "main_loop c e weekISO [] st = Some st"
| "main_loop c e weekISO (loc # locs) st =
     (case runLoc c e weekISO loc st of
        None \<Rightarrow> None
      | Some st' \<Rightarrow> main_loop c e weekISO locs st')"

text \<open>
  The table \<^verbatim>\<open>LOCS\<close>, read from the process environment \<open>pe\<close>, and \<^verbatim>\<open>main\<close>. The
  week is \<^verbatim>\<open>process.env.WEEK_OF || mondayISO()\<close>; \<open>monday\<close> is what \<^verbatim>\<open>mondayISO()\<close>
  returns on the day of the run.
\<close>

definition LOCS :: "(string \<Rightarrow> string option) \<Rightarrow> (string \<times> loc_cfg) list" where
  "LOCS pe =
     [(''beacon'', \<lparr>base_url = pe ''SILVERWARE_BASE_BEACON'',
                    api_token = pe ''SILVERWARE_TOKEN_BEACON''\<rparr>),
      (''tulia'', \<lparr>base_url = pe ''SILVERWARE_BASE_TULIA'',
                   api_token = pe ''SILVERWARE_TOKEN_TULIA''\<rparr>),
      (''prohibition'', \<lparr>base_url = pe ''SILVERWARE_BASE_PROHIBITION'',
                         api_token = pe ''SILVERWARE_TOKEN_PROHIBITION''\<rparr>),
      (''cesoir'', \<lparr>base_url = pe ''SILVERWARE_BASE_CESOIR'',
                    api_token = pe ''SILVERWARE_TOKEN_CESOIR''\<rparr>)]"

definition main ::
  "(rat \<Rightarrow> string) \<Rightarrow> (string \<Rightarrow> string option) \<Rightarrow> env \<Rightarrow> string \<Rightarrow> run_state
   \<Rightarrow> run_state option" where
  "main n2s pe e monday st =
     main_loop
       \<lparr>cfg_n2s = n2s, cfg_hints = FOOD_HINTS (pe ''FOOD_CATEGORY_HINTS''),
        cfg_tz = TZ_OFFSET_MIN (pe ''SILVERWARE_TZ_OFFSET_MINUTES'')\<rparr>
       e (env_or (pe ''WEEK_OF'') monday) (LOCS pe) st"

section \<open>Concrete inputs\<close>

text \<open>A configuration, an empty accumulator and order lines on which the theorems are run.\<close>

definition cfg0 :: config where
  "cfg0 = \<lparr>cfg_n2s = (\<lambda>q. []), cfg_hints = FOOD_HINTS None, cfg_tz = Some 0\<rparr>"

definition acc0 :: acc where
  "acc0 = \<lparr>orders = 0, food = Fin 0, voids = Fin 0, promos = Fin 0\<rparr>"




definition bare_line :: jsval where
  "bare_line = JObj [(''NetTotal'', JNum (Fin 5)), (''CategoryName'', JStr [])]"

definition lines_order :: jsval where
  "lines_order = JObj [(''Lines'', JNull), (''OrderItems'', JArr [bare_line]), (''CheckLines'', JArr [])]"


definition spec_first_truthy :: "jsval list \<Rightarrow> jsval" where
  "spec_first_truthy vs = (case find truthy vs of Some v \<Rightarrow> v | None \<Rightarrow> JArr [])"

definition spec_first_array :: "jsval list \<Rightarrow> jsval" where
  "spec_first_array vs = (case find isArray vs of Some v \<Rightarrow> v | None \<Rightarrow> JArr [])"


























text \<open>The number of days of month \<open>m\<close> (from \<open>1\<close>) in year \<open>y\<close>.\<close>

definition days_in_month :: "int \<Rightarrow> int \<Rightarrow> int" where
  "days_in_month y m =
     (if m = 2 then 28 + InLeapYear y
      else if m = 4 \<or> m = 6 \<or> m = 9 \<or> m = 11 then 30 else 31)"



text \<open>Rounding a numeral: the rules that let the simplifier compute \<open>fl\<close>.\<close>

lemma floor_rat_numeral: "\<lfloor>numeral a / numeral b :: rat\<rfloor> = numeral a div numeral b"
  by (metis floor_divide_of_int_eq of_int_numeral)
lemma floor_rat_one_numeral: "\<lfloor>1 / numeral b :: rat\<rfloor> = 1 div numeral b"
  by (metis floor_divide_of_int_eq of_int_numeral of_int_1)
lemma ceiling_rat_numeral: "\<lceil>numeral a / numeral b :: rat\<rceil> = - ((- numeral a) div numeral b)"
  by (metis ceiling_divide_eq_div of_int_numeral)
lemma ceiling_rat_one_numeral: "\<lceil>1 / numeral b :: rat\<rceil> = - ((- 1) div numeral b)"
  by (metis ceiling_divide_eq_div of_int_numeral of_int_1)
lemma bitlen_numeral: "bitlen (numeral k) = bitlen (numeral k div 2) + 1"
  by (subst compute_bitlen) simp
lemma bitlen_one: "bitlen 1 = 1"
  by (subst compute_bitlen) simp
lemmas fl_eval = fl_def fl_pos_def ilog2_def round_even_def pow2_def Let_def
  floor_rat_numeral floor_rat_one_numeral ceiling_rat_numeral ceiling_rat_one_numeral
  bitlen_numeral bitlen_one


lemmas str_num_eval = StringToNumber_def trim_def is_ws_def radix_prefix_def str_decimal_def
  unsigned_decimal_def is_dec_def dec_digit_def dec_val_def exponent_part_def digits_val_def
  digit_base_def hex_digit_def pow10_def



lemma bare_line_name: "lineCategoryName (cfg_n2s cfg0) bare_line = []"
  by code_simp





lemma StringToNumber_m1: "StringToNumber ''-1'' = Fin (- 1)"
  by (simp add: str_num_eval fl_eval)
















section \<open>Voided lines\<close>



section \<open>Discounts\<close>





section \<open>Probing the amount fields\<close>







section \<open>Probing the line collection\<close>

lemma js_or_truthy: "js_or a b = (if truthy a then a else b)"
  by (simp add: js_or_def)

lemma isArray_truthy: "isArray v \<Longrightarrow> truthy v"
  by (cases v) simp_all

text \<open>
  Claim C6, as stated: \<^verbatim>\<open>orderLines\<close> returns the first present array and never a value
  that is not an array. On an order whose \<^verbatim>\<open>Lines\<close> is a string and whose \<^verbatim>\<open>Items\<close> is
  an array it returns the string.
\<close>

theorem orderLines_string_counterexample:
  "orderLines (JObj [(''Lines'', JStr ''abc''), (''Items'', JArr [JObj []])]) = JStr ''abc''
   \<and> \<not> isArray (orderLines (JObj [(''Lines'', JStr ''abc''), (''Items'', JArr [JObj []])]))"
  by (simp add: orderLines_def js_or_def)

text \<open>
  Claim C6, amended: \<^verbatim>\<open>orderLines\<close> probes \<^verbatim>\<open>Lines\<close>, \<^verbatim>\<open>Items\<close>, \<^verbatim>\<open>OrderLines\<close>,
  \<^verbatim>\<open>OrderItems\<close>, \<^verbatim>\<open>CheckLines\<close> in this order and returns the first truthy value, else
  an empty array; when each of these fields is an array or falsy, the result is an array,
  the first one present.
\<close>

theorem orderLines_first_truthy:
  "orderLines ord =
     spec_first_truthy (map (get ord) [''Lines'', ''Items'', ''OrderLines'', ''OrderItems'', ''CheckLines''])
   \<and> ((\<forall>k \<in> set [''Lines'', ''Items'', ''OrderLines'', ''OrderItems'', ''CheckLines''].
          isArray (get ord k) \<or> \<not> truthy (get ord k))
        \<longrightarrow> isArray (orderLines ord)
            \<and> orderLines ord =
                spec_first_array (map (get ord)
                  [''Lines'', ''Items'', ''OrderLines'', ''OrderItems'', ''CheckLines'']))"
  by (auto simp add: orderLines_def spec_first_truthy_def spec_first_array_def js_or_def
        isArray_truthy)


theorem orderLines_first_truthy_witness:
  "\<not> truthy (get lines_order ''Lines'') \<and> \<not> truthy (get lines_order ''Items'')
   \<and> \<not> truthy (get lines_order ''OrderLines'') \<and> isArray (get lines_order ''OrderItems'')
   \<and> isArray (get lines_order ''CheckLines'')
   \<and> isArray (orderLines lines_order) \<and> orderLines lines_order = JArr [bare_line]"
  using orderLines_first_truthy [of lines_order, THEN conjunct2]
  by (simp add: lines_order_def spec_first_array_def)

section \<open>Lines without a category\<close>

lemma FOOD_HINTS_nonempty: "h \<in> set (FOOD_HINTS ev) \<Longrightarrow> h \<noteq> []"
  by (simp add: FOOD_HINTS_def)

lemma str_includes_empty: "str_includes [] h \<longleftrightarrow> h = []"
  by simp

text \<open>
  Claim C10. A line whose category name is the empty string is not food under any value
  of \<^verbatim>\<open>FOOD_CATEGORY_HINTS\<close>, the hint list holding no empty entry, and it leaves the food
  total as it was.
\<close>

theorem empty_category_never_food:
  assumes "lineCategoryName (cfg_n2s c) line = []" and "cfg_hints c = FOOD_HINTS ev"
  shows "\<not> looksLikeFood (cfg_n2s c) (cfg_hints c) line
         \<and> (\<forall>a. food (lineStep c a line) = food a)"
proof -
  have nf: "\<not> looksLikeFood (cfg_n2s c) (cfg_hints c) line"
    using assms FOOD_HINTS_nonempty [of _ ev]
    by (auto simp add: looksLikeFood_def list_ex_iff)
  then show ?thesis
    by (simp add: lineStep_def Let_def)
qed

theorem empty_category_never_food_witness:
  "lineCategoryName (cfg_n2s cfg0) bare_line = [] \<and> cfg_hints cfg0 = FOOD_HINTS None
   \<and> \<not> looksLikeFood (cfg_n2s cfg0) (cfg_hints cfg0) bare_line
   \<and> food (lineStep cfg0 acc0 bare_line) = food acc0"
  using empty_category_never_food [of cfg0 bare_line None] bare_line_name
  by (simp add: cfg0_def)


section \<open>The totals are never negative\<close>























section \<open>Pagination\<close>

















section \<open>A failing location\<close>





section \<open>The week window\<close>

subsection \<open>Digits\<close>

lemma digit_char_dec: "(i::nat) < 10 \<Longrightarrow> dec_digit (''0123456789'' ! i) = Some i"
proof -
  assume "i < 10"
  then have "i \<in> {0, 1, 2, 3, 4, 5, 6, 7, 8, 9}" by auto
  then show ?thesis by (auto simp add: dec_digit_def)
qed

lemma digit_of_mod: "dec_digit (''0123456789'' ! nat (k mod 10)) = Some (nat (k mod 10))"
  by (rule digit_char_dec) simp

lemma length_pad: "length (pad n k) = n"
  by (induction n arbitrary: k) simp_all

lemma pad_is_dec: "list_all is_dec (pad n k)"
  by (induction n arbitrary: k) (simp_all add: is_dec_def digit_of_mod)

lemma dec_val_snoc:
  "dec_val (xs @ [c]) = 10 * dec_val xs + (case dec_digit c of Some d \<Rightarrow> int d | None \<Rightarrow> 0)"
  by (simp add: dec_val_def)

lemma dec_val_pad: "0 \<le> k \<Longrightarrow> dec_val (pad n k) = k mod 10 ^ n"
proof (induction n arbitrary: k)
  case 0
  then show ?case by (simp add: dec_val_def)
next
  case (Suc n)
  have "dec_val (pad (Suc n) k) = 10 * ((k div 10) mod 10 ^ n) + k mod 10"
    using Suc by (simp add: dec_val_snoc digit_of_mod)
  also have "\<dots> = k mod 10 ^ Suc n"
    using zmod_zmult2_eq [of "10 ^ n" k 10] by simp
  finally show ?case .
qed

lemma read_digits_pad:
  assumes "0 \<le> k" and "k < 10 ^ n"
  shows "read_digits n (pad n k @ rest) = Some (k, rest)"
  using assms by (simp add: read_digits_def length_pad pad_is_dec dec_val_pad)

lemma is_dec_cases: "is_dec c \<Longrightarrow> c \<in> set ''0123456789''"
  by (auto simp add: is_dec_def dec_digit_def split: if_splits)

lemma pad_chars: "c \<in> set (pad n k) \<Longrightarrow> c \<in> set ''0123456789''"
  using pad_is_dec [of n k] is_dec_cases by (auto simp add: list_all_iff)

subsection \<open>Years, months and days\<close>

lemma year_down_le: "year_down d y \<le> y"
proof (induction d y rule: year_down.induct)
  case (1 d y)
  then show ?case by (subst year_down.simps) auto
qed

lemma year_down_spec:
  "d < DayFromYear (y + 1) \<Longrightarrow>
   DayFromYear (year_down d y) \<le> d \<and> d < DayFromYear (year_down d y + 1)"
proof (induction d y rule: year_down.induct)
  case (1 d y)
  show ?case
  proof (cases "DayFromYear y \<le> d")
    case True
    with 1(2) show ?thesis by (subst (1 2) year_down.simps) simp
  next
    case False
    then have "d < DayFromYear (y - 1 + 1)" by simp
    with 1(1) [OF False] False show ?thesis by (subst (1 2) year_down.simps) simp
  qed
qed

lemma DaysInYear_bounds: "365 \<le> DaysInYear y" "DaysInYear y \<le> 366"
  by (simp_all add: DaysInYear_def)

lemma DayFromYear_1970: "DayFromYear 1970 = 0"
  by (simp add: DayFromYear_def)

lemma DayFromYear_ge_up: "1970 \<le> y \<Longrightarrow> 365 * (y - 1970) \<le> DayFromYear y"
proof (induction y rule: int_ge_induct)
  case base
  then show ?case by (simp add: DayFromYear_1970)
next
  case (step i)
  then show ?case using DayFromYear_Suc [of i] DaysInYear_bounds [of i] by simp
qed

lemma DayFromYear_down: "y \<le> 1970 \<Longrightarrow> 366 * (y - 1970) \<le> DayFromYear y \<and> DayFromYear y \<le> 365 * (y - 1970)"
proof (induction y rule: int_le_induct)
  case base
  then show ?case by (simp add: DayFromYear_1970)
next
  case (step i)
  then show ?case using DayFromYear_Suc [of "i - 1"] DaysInYear_bounds [of "i - 1"] by simp
qed

lemma year_start_above:
  "d < DayFromYear ((if 0 \<le> d then 1970 + d div 365 else 1970 + d div 366) + 1)"
proof (cases "0 \<le> d")
  case True
  have "d < 365 * (d div 365 + 1)"
    by presburger
  also have "\<dots> \<le> DayFromYear (1970 + d div 365 + 1)"
    using DayFromYear_ge_up [of "1970 + d div 365 + 1"] True
    by (simp add: pos_imp_zdiv_nonneg_iff)
  finally show ?thesis using True by simp
next
  case False
  then have neg: "d div 366 \<le> - 1" by presburger
  have "d < 366 * (d div 366 + 1)"
    by presburger
  also have "\<dots> \<le> DayFromYear (1970 + d div 366 + 1)"
    using DayFromYear_down [of "1970 + d div 366 + 1"] neg by simp
  finally show ?thesis using False by simp
qed

lemma YearFromTime_spec:
  "DayFromYear (YearFromTime t) \<le> Day t \<and> Day t < DayFromYear (YearFromTime t + 1)"
  unfolding YearFromTime_def Let_def by (rule year_down_spec) (rule year_start_above)

lemma DayWithinYear_range:
  "0 \<le> DayWithinYear t \<and> DayWithinYear t < 365 + InLeapYear (YearFromTime t)"
  using YearFromTime_spec [of t] DayFromYear_Suc [of "YearFromTime t"]
  by (auto simp add: DayWithinYear_def InLeapYear_def DaysInYear_def)

lemma InLeapYear_01: "InLeapYear y = 0 \<or> InLeapYear y = 1"
  by (simp add: InLeapYear_def)

lemma month_of_day_range: "0 \<le> month_of_day d l \<and> month_of_day d l \<le> 11"
  by (simp add: month_of_day_def)

lemma date_in_month:
  assumes "0 \<le> d" and "d < 365 + l" and "l = 0 \<or> l = 1"
  shows "1 \<le> d - month_start (month_of_day d l) l + 1
         \<and> d - month_start (month_of_day d l) l + 1 \<le> 31"
  using assms by (auto simp add: month_of_day_def month_start_def)

lemma MonthFromTime_range: "0 \<le> MonthFromTime t \<and> MonthFromTime t \<le> 11"
  by (simp add: MonthFromTime_def month_of_day_range)

lemma DateFromTime_range: "1 \<le> DateFromTime t \<and> DateFromTime t \<le> 31"
  unfolding DateFromTime_def MonthFromTime_def
  using date_in_month [OF _ _ InLeapYear_01] DayWithinYear_range [of t] by blast

lemma MakeDay_back:
  "MakeDay (YearFromTime t) (MonthFromTime t) (DateFromTime t + k) = Day t + k"
proof -
  have "MonthFromTime t div 12 = 0" "MonthFromTime t mod 12 = MonthFromTime t"
    using MonthFromTime_range [of t] by simp_all
  then show ?thesis
    by (simp add: MakeDay_def Let_def DateFromTime_def DayWithinYear_def)
qed

lemma time_fields:
  "t div 60000 = t div 1000 div 60" "t div 3600000 = t div 1000 div 60 div 60"
  "t div 86400000 = t div 1000 div 60 div 60 div (24::int)"
  by (simp_all add: div_mult2_eq [symmetric])

lemma time_decomp:
  "MakeDate (Day t)
     (MakeTime (HourFromTime t) m (SecFromTime t) (msFromTime t))
   = t + (m - MinFromTime t) * 60000"
proof -
  define a where "a = t div 1000"
  define b where "b = a div 60"
  define c where "c = b div 60"
  define c1 where "c1 = c div 24"
  define t0 where "t0 = t mod 1000"
  define a0 where "a0 = a mod 60"
  define b0 where "b0 = b mod 60"
  define c0 where "c0 = c mod 24"
  have t: "t = 1000 * a + t0" by (simp add: a_def t0_def)
  have a: "a = 60 * b + a0" by (simp add: b_def a0_def)
  have b: "b = 60 * c + b0" by (simp add: c_def b0_def)
  have c: "c = 24 * c1 + c0" by (simp add: c1_def c0_def)
  have "MakeDate (Day t) (MakeTime (HourFromTime t) m (SecFromTime t) (msFromTime t))
        = c1 * 86400000 + c0 * 3600000 + m * 60000 + a0 * 1000 + t0"
    by (simp add: MakeDate_def Day_def msPerDay_def MakeTime_def HourFromTime_def
        SecFromTime_def msFromTime_def time_fields a_def b_def c_def c1_def t0_def a0_def c0_def)
  also have "\<dots> = t + (m - b0) * 60000"
    by (subst t, subst a, subst b, subst c) (simp add: algebra_simps)
  finally show ?thesis
    by (simp add: MinFromTime_def time_fields a_def b_def b0_def)
qed

lemma time_ranges:
  "0 \<le> HourFromTime t \<and> HourFromTime t < 24" "0 \<le> MinFromTime t \<and> MinFromTime t < 60"
  "0 \<le> SecFromTime t \<and> SecFromTime t < 60" "0 \<le> msFromTime t \<and> msFromTime t < 1000"
  by (simp_all add: HourFromTime_def MinFromTime_def SecFromTime_def msFromTime_def)

lemma TimeWithinDay_eq:
  "TimeWithinDay t = MakeTime (HourFromTime t) (MinFromTime t) (SecFromTime t) (msFromTime t)"
proof -
  have "MakeDate (Day t) (TimeWithinDay t) = t"
    by (simp add: MakeDate_def Day_def TimeWithinDay_def)
  moreover have "MakeDate (Day t)
     (MakeTime (HourFromTime t) (MinFromTime t) (SecFromTime t) (msFromTime t)) = t"
    using time_decomp [of t "MinFromTime t"] by simp
  ultimately show ?thesis by (simp add: MakeDate_def)
qed

lemma Day_bounds:
  assumes "\<bar>t\<bar> \<le> 8640000000000000"
  shows "- 100000000 \<le> Day t" "Day t \<le> 100000000"
proof -
  have "t div 86400000 \<le> 8640000000000000 div 86400000"
    using assms by (intro zdiv_mono1) simp_all
  then show "Day t \<le> 100000000" by (simp add: Day_def msPerDay_def)
  have "(- 8640000000000000) div 86400000 \<le> t div 86400000"
    using assms by (intro zdiv_mono1) simp_all
  then show "- 100000000 \<le> Day t" by (simp add: Day_def msPerDay_def)
qed

lemma YearFromTime_bounds:
  assumes "\<bar>t\<bar> \<le> 8640000000000000"
  shows "- 999999 \<le> YearFromTime t \<and> YearFromTime t \<le> 999999"
proof -
  note d = Day_bounds [OF assms]
  have up: "YearFromTime t \<le> 999999"
  proof -
    have le: "YearFromTime t \<le> (if 0 \<le> Day t then 1970 + Day t div 365 else 1970 + Day t div 366)"
      unfolding YearFromTime_def Let_def by (rule year_down_le)
    show ?thesis
    proof (cases "0 \<le> Day t")
      case True
      have "Day t div 365 \<le> 100000000 div 365"
        using d(2) by (intro zdiv_mono1) simp_all
      with le True show ?thesis by simp
    next
      case False
      have "Day t div 366 \<le> 0 div 366"
        using False by (intro zdiv_mono1) simp_all
      with le False show ?thesis by simp
    qed
  qed
  have low: "- 999999 \<le> YearFromTime t"
  proof (cases "1970 \<le> YearFromTime t + 1")
    case True
    then show ?thesis by simp
  next
    case False
    then have "DayFromYear (YearFromTime t + 1) \<le> 365 * (YearFromTime t + 1 - 1970)"
      using DayFromYear_down [of "YearFromTime t + 1"] by simp
    with YearFromTime_spec [of t] d show ?thesis by simp
  qed
  from up low show ?thesis by simp
qed

subsection \<open>Reading back a printed date\<close>

lemma not_T: "c \<in> set ''0123456789+-'' \<Longrightarrow> c \<noteq> CHR ''T''"
  by auto

lemma pad_not_T: "c \<in> set (pad n k) \<Longrightarrow> c \<noteq> CHR ''T''"
  using pad_chars [of c n k] by auto

lemma pad_Cons: "0 < n \<Longrightarrow> \<exists>c cs. pad n k = c # cs \<and> c \<noteq> CHR ''+'' \<and> c \<noteq> CHR ''-''"
proof -
  assume "0 < n"
  then have "pad n k \<noteq> []" using length_pad [of n k] by auto
  then obtain c cs where p: "pad n k = c # cs" by (cases "pad n k") auto
  then have "c \<in> set (pad n k)" by simp
  then have "c \<in> set ''0123456789''" by (rule pad_chars)
  then have "c \<noteq> CHR ''+'' \<and> c \<noteq> CHR ''-''" by auto
  with p show ?thesis by blast
qed

lemma year_string_chars: "c \<in> set (year_string y) \<Longrightarrow> c \<noteq> CHR ''T''"
  using pad_not_T by (auto simp add: year_string_def split: if_splits)

lemma read_year_string:
  assumes "- 999999 \<le> y" and "y \<le> 999999"
  shows "read_year (year_string y @ rest) = Some (y, rest)"
proof (cases "0 \<le> y \<and> y \<le> 9999")
  case True
  obtain c cs where p: "pad 4 y = c # cs" "c \<noteq> CHR ''+''" "c \<noteq> CHR ''-''"
    using pad_Cons [of 4 y] by auto
  have "read_digits 4 (pad 4 y @ rest) = Some (y, rest)"
    using True by (intro read_digits_pad) simp_all
  then show ?thesis
    using True p by (simp add: year_string_def read_year_def)
next
  case False
  show ?thesis
  proof (cases "y < 0")
    case True
    have "read_digits 6 (pad 6 \<bar>y\<bar> @ rest) = Some (\<bar>y\<bar>, rest)"
      using assms by (intro read_digits_pad) simp_all
    then show ?thesis
      using True by (simp add: year_string_def read_year_def)
  next
    case False
    with \<open>\<not> (0 \<le> y \<and> y \<le> 9999)\<close> have big: "9999 < y" by simp
    have "read_digits 6 (pad 6 \<bar>y\<bar> @ rest) = Some (\<bar>y\<bar>, rest)"
      using assms by (intro read_digits_pad) simp_all
    then show ?thesis
      using big by (simp add: year_string_def read_year_def)
  qed
qed

lemma read_sep2_pad:
  assumes "0 \<le> k" and "k < 100"
  shows "read_sep2 c (c # pad 2 k @ rest) = Some (k, rest)"
  using read_digits_pad [of k 2 rest] assms by (simp add: read_sep2_def)

lemma read_date_string:
  assumes "- 999999 \<le> y" and "y \<le> 999999" and "0 \<le> m" and "m < 100" and "0 \<le> d" and "d < 100"
  shows "read_date (year_string y @ ''-'' @ pad 2 m @ ''-'' @ pad 2 d) = Some (y, m, d)"
proof -
  have y: "read_year (year_string y @ (CHR ''-'' # pad 2 m @ CHR ''-'' # pad 2 d))
           = Some (y, CHR ''-'' # pad 2 m @ CHR ''-'' # pad 2 d)"
    by (rule read_year_string [OF assms(1,2)])
  have m: "read_sep2 (CHR ''-'') (CHR ''-'' # pad 2 m @ (CHR ''-'' # pad 2 d))
           = Some (m, CHR ''-'' # pad 2 d)"
    by (rule read_sep2_pad [OF assms(3,4)])
  have d: "read_sep2 (CHR ''-'') (CHR ''-'' # pad 2 d @ []) = Some (d, [])"
    by (rule read_sep2_pad [OF assms(5,6)])
  show ?thesis
    using y m d by (simp add: read_date_def)
qed

lemma read_time_string:
  assumes "0 \<le> h" "h < 100" "0 \<le> mi" "mi < 100" "0 \<le> s" "s < 100" "0 \<le> ms" "ms < 1000"
  shows "read_time (''T'' @ pad 2 h @ '':'' @ pad 2 mi @ '':'' @ pad 2 s @ ''.'' @ pad 3 ms @ ''Z'')
         = Some (h, mi, s, ms)"
proof -
  have h: "read_sep2 (CHR ''T'')
             (CHR ''T'' # pad 2 h @ (CHR '':'' # pad 2 mi @ CHR '':'' # pad 2 s @ CHR ''.'' # pad 3 ms @ ''Z''))
           = Some (h, CHR '':'' # pad 2 mi @ CHR '':'' # pad 2 s @ CHR ''.'' # pad 3 ms @ ''Z'')"
    by (rule read_sep2_pad [OF assms(1,2)])
  have mi: "read_sep2 (CHR '':'')
             (CHR '':'' # pad 2 mi @ (CHR '':'' # pad 2 s @ CHR ''.'' # pad 3 ms @ ''Z''))
           = Some (mi, CHR '':'' # pad 2 s @ CHR ''.'' # pad 3 ms @ ''Z'')"
    by (rule read_sep2_pad [OF assms(3,4)])
  have s: "read_sep2 (CHR '':'') (CHR '':'' # pad 2 s @ (CHR ''.'' # pad 3 ms @ ''Z''))
           = Some (s, CHR ''.'' # pad 3 ms @ ''Z'')"
    by (rule read_sep2_pad [OF assms(5,6)])
  have "read_digits 3 (pad 3 ms @ ''Z'') = Some (ms, ''Z'')"
    using assms(7,8) by (intro read_digits_pad) simp_all
  then have ms: "read_ms (CHR ''.'' # pad 3 ms @ ''Z'') = Some ms"
    by (simp add: read_ms_def)
  show ?thesis
    using h mi s ms by (simp add: read_time_def)
qed

lemma split_at_T:
  assumes "\<And>c. c \<in> set ds \<Longrightarrow> c \<noteq> CHR ''T''"
  shows "takeWhile (\<lambda>c. c \<noteq> CHR ''T'') (ds @ CHR ''T'' # r) = ds"
    and "dropWhile (\<lambda>c. c \<noteq> CHR ''T'') (ds @ CHR ''T'' # r) = CHR ''T'' # r"
  using assms by simp_all

lemma date_part_chars:
  "c \<in> set (year_string y @ ''-'' @ pad 2 m @ ''-'' @ pad 2 d) \<Longrightarrow> c \<noteq> CHR ''T''"
  using year_string_chars [of c y] pad_not_T [of c 2 m] pad_not_T [of c 2 d] by auto

lemma Date_parse_fields:
  assumes "- 999999 \<le> y" "y \<le> 999999" "1 \<le> m" "m \<le> 12" "1 \<le> d" "d \<le> 31"
    and "0 \<le> h" "h < 24" "0 \<le> mi" "mi < 60" "0 \<le> s" "s < 60" "0 \<le> ms" "ms < 1000"
  shows "Date_parse (year_string y @ ''-'' @ pad 2 m @ ''-'' @ pad 2 d @ ''T'' @ pad 2 h @ '':''
           @ pad 2 mi @ '':'' @ pad 2 s @ ''.'' @ pad 3 ms @ ''Z'')
         = TimeClip (MakeDate (MakeDay y (m - 1) d) (MakeTime h mi s ms))"
proof -
  let ?D = "year_string y @ ''-'' @ pad 2 m @ ''-'' @ pad 2 d"
  let ?R = "pad 2 h @ '':'' @ pad 2 mi @ '':'' @ pad 2 s @ ''.'' @ pad 3 ms @ ''Z''"
  have e: "year_string y @ ''-'' @ pad 2 m @ ''-'' @ pad 2 d @ ''T'' @ pad 2 h @ '':''
           @ pad 2 mi @ '':'' @ pad 2 s @ ''.'' @ pad 3 ms @ ''Z'' = ?D @ CHR ''T'' # ?R"
    by simp
  have tk: "takeWhile (\<lambda>c. c \<noteq> CHR ''T'') (?D @ CHR ''T'' # ?R) = ?D"
    and dr: "dropWhile (\<lambda>c. c \<noteq> CHR ''T'') (?D @ CHR ''T'' # ?R) = CHR ''T'' # ?R"
    using split_at_T [of ?D ?R] date_part_chars [of _ y m d] by blast+
  have rd: "read_date ?D = Some (y, m, d)"
    using assms by (intro read_date_string) simp_all
  have rt: "read_time (CHR ''T'' # ?R) = Some (h, mi, s, ms)"
    using read_time_string [of h mi s ms] assms by simp
  show ?thesis
    unfolding e Date_parse_def tk dr rd rt using assms by simp
qed

lemma Date_parse_toISOString:
  assumes "\<bar>t\<bar> \<le> 8640000000000000"
  shows "Date_parse (toISOString t) = Some t"
proof -
  have "Date_parse (toISOString t)
        = TimeClip (MakeDate (MakeDay (YearFromTime t) (MonthFromTime t + 1 - 1) (DateFromTime t))
            (MakeTime (HourFromTime t) (MinFromTime t) (SecFromTime t) (msFromTime t)))"
    unfolding toISOString_def
    using YearFromTime_bounds [OF assms] MonthFromTime_range [of t] DateFromTime_range [of t]
      time_ranges [of t]
    by (intro Date_parse_fields) simp_all
  also have "\<dots> = TimeClip (MakeDate (Day t) (TimeWithinDay t))"
    using MakeDay_back [of t 0] by (simp add: TimeWithinDay_eq)
  also have "\<dots> = Some t"
    using assms by (simp add: MakeDate_def Day_def TimeWithinDay_def TimeClip_def)
  finally show ?thesis .
qed

lemma read_time_midnight: "read_time ''T00:00:00Z'' = Some (0, 0, 0, 0)"
  by code_simp

lemma Date_parse_midnight:
  assumes "0 \<le> y" "y \<le> 9999" "1 \<le> m" "m \<le> 12" "1 \<le> d" "d \<le> 31"
  shows "Date_parse ((pad 4 y @ ''-'' @ pad 2 m @ ''-'' @ pad 2 d) @ ''T00:00:00Z'')
         = TimeClip (MakeDay y (m - 1) d * msPerDay)"
proof -
  have ys: "year_string y = pad 4 y"
    using assms by (simp add: year_string_def)
  let ?D = "year_string y @ ''-'' @ pad 2 m @ ''-'' @ pad 2 d"
  have e: "(pad 4 y @ ''-'' @ pad 2 m @ ''-'' @ pad 2 d) @ ''T00:00:00Z''
           = ?D @ CHR ''T'' # ''00:00:00Z''"
    by (simp add: ys)
  have tk: "takeWhile (\<lambda>c. c \<noteq> CHR ''T'') (?D @ CHR ''T'' # ''00:00:00Z'') = ?D"
    and dr: "dropWhile (\<lambda>c. c \<noteq> CHR ''T'') (?D @ CHR ''T'' # ''00:00:00Z'') = ''T00:00:00Z''"
    using split_at_T [of ?D "''00:00:00Z''"] date_part_chars [of _ y m d] by blast+
  have rd: "read_date ?D = Some (y, m, d)"
    using assms by (intro read_date_string) simp_all
  show ?thesis
    unfolding e Date_parse_def tk dr rd read_time_midnight using assms
    by (simp add: MakeDate_def MakeTime_def)
qed

lemma DayFromYear_le_up: "1970 \<le> y \<Longrightarrow> DayFromYear y \<le> 366 * (y - 1970)"
proof (induction y rule: int_ge_induct)
  case base
  then show ?case by (simp add: DayFromYear_1970)
next
  case (step i)
  then show ?case using DayFromYear_Suc [of i] DaysInYear_bounds [of i] by simp
qed

lemma DayFromYear_4digit:
  assumes "0 \<le> y" "y \<le> 9999"
  shows "- 721020 \<le> DayFromYear y" "DayFromYear y \<le> 2938614"
proof -
  show "- 721020 \<le> DayFromYear y"
  proof (cases "y \<le> 1970")
    case True
    with DayFromYear_down [of y] assms show ?thesis by simp
  next
    case False
    with DayFromYear_ge_up [of y] show ?thesis by simp
  qed
  show "DayFromYear y \<le> 2938614"
  proof (cases "y \<le> 1970")
    case True
    with DayFromYear_down [of y] show ?thesis by simp
  next
    case False
    with DayFromYear_le_up [of y] assms show ?thesis by simp
  qed
qed

lemma month_start_range: "0 \<le> m \<Longrightarrow> m \<le> 11 \<Longrightarrow> 0 \<le> month_start m (InLeapYear y) \<and> month_start m (InLeapYear y) \<le> 335"
  using InLeapYear_01 [of y] by (auto simp add: month_start_def)

lemma MakeDay_4digit:
  assumes "0 \<le> y" "y \<le> 9999" "1 \<le> m" "m \<le> 12" "1 \<le> d" "d \<le> 31"
  shows "\<bar>MakeDay y (m - 1) d * msPerDay\<bar> \<le> 8640000000000000"
proof -
  have dm: "(m - 1) div 12 = 0" "(m - 1) mod 12 = m - 1"
    using assms by simp_all
  have md: "MakeDay y (m - 1) d = DayFromYear y + month_start (m - 1) (InLeapYear y) + d - 1"
    by (simp add: MakeDay_def Let_def dm)
  have "- 721020 \<le> MakeDay y (m - 1) d" "MakeDay y (m - 1) d \<le> 2938614 + 335 + 31"
    using DayFromYear_4digit [OF assms(1,2)] month_start_range [of "m - 1" y] assms
    unfolding md by simp_all
  then show ?thesis by (simp add: msPerDay_def)
qed

text \<open>
  Claim C7. For a calendar date \<^verbatim>\<open>YYYY-MM-DD\<close> and an offset of \<open>tz\<close> minutes,
  \<^verbatim>\<open>rangeForWeekISO\<close> returns as start the instant of midnight UTC of that date minus
  \<open>tz\<close> minutes and as end the instant exactly seven days later, both printed by
  \<^verbatim>\<open>toISOString\<close> and both read back as these instants, as long as the two instants are
  within the range of a \<^verbatim>\<open>Date\<close>. For \<^verbatim>\<open>2025-10-06\<close> and \<open>-240\<close> the strings are
  \<^verbatim>\<open>2025-10-06T04:00:00.000Z\<close> and \<^verbatim>\<open>2025-10-13T04:00:00.000Z\<close>.
\<close>

theorem week_window:
  assumes "0 \<le> y" "y \<le> 9999" "1 \<le> m" "m \<le> 12" "1 \<le> d" "d \<le> days_in_month y m"
    and "t0 = MakeDay y (m - 1) d * msPerDay - tz * 60000"
    and "\<bar>t0\<bar> \<le> 8640000000000000" and "\<bar>t0 + 7 * msPerDay\<bar> \<le> 8640000000000000"
  shows "rangeForWeekISO (pad 4 y @ ''-'' @ pad 2 m @ ''-'' @ pad 2 d) (Some tz)
           = Inr (toISOString t0, toISOString (t0 + 7 * msPerDay))
         \<and> Date_parse (toISOString t0) = Some t0
         \<and> Date_parse (toISOString (t0 + 7 * msPerDay)) = Some (t0 + 7 * msPerDay)
         \<and> rangeForWeekISO ''2025-10-06'' (Some (- 240))
             = Inr (''2025-10-06T04:00:00.000Z'', ''2025-10-13T04:00:00.000Z'')"
proof -
  have d31: "d \<le> 31"
    using assms(6) InLeapYear_01 [of y] by (auto simp add: days_in_month_def split: if_splits)
  let ?mid = "MakeDay y (m - 1) d * msPerDay"
  have mid: "Date_parse ((pad 4 y @ ''-'' @ pad 2 m @ ''-'' @ pad 2 d) @ ''T00:00:00Z'') = Some ?mid"
    using Date_parse_midnight [OF assms(1-5) d31] MakeDay_4digit [OF assms(1-5) d31]
    by (simp add: TimeClip_def)
  have "setUTCMinutes ?mid (MinFromTime ?mid - tz) = TimeClip (?mid + (MinFromTime ?mid - tz - MinFromTime ?mid) * 60000)"
    unfolding setUTCMinutes_def time_decomp ..
  also have "\<dots> = Some t0"
    using assms(7,8) by (simp add: TimeClip_def)
  finally have mk: "mk (Some tz) (pad 4 y @ ''-'' @ pad 2 m @ ''-'' @ pad 2 d) = Inr (toISOString t0)"
    using mid by (simp add: mk_def)
  have p0: "Date_parse (toISOString t0) = Some t0"
    by (rule Date_parse_toISOString [OF assms(8)])
  have p7: "Date_parse (toISOString (t0 + 7 * msPerDay)) = Some (t0 + 7 * msPerDay)"
    by (rule Date_parse_toISOString [OF assms(9)])
  have "setUTCDate t0 (DateFromTime t0 + 7) = TimeClip (MakeDate (Day t0 + 7) (TimeWithinDay t0))"
    unfolding setUTCDate_def MakeDay_back ..
  also have "\<dots> = Some (t0 + 7 * msPerDay)"
    using assms(9) by (simp add: TimeClip_def MakeDate_def Day_def TimeWithinDay_def algebra_simps)
  finally have sd: "setUTCDate t0 (DateFromTime t0 + 7) = Some (t0 + 7 * msPerDay)" .
  have r: "rangeForWeekISO (pad 4 y @ ''-'' @ pad 2 m @ ''-'' @ pad 2 d) (Some tz)
           = Inr (toISOString t0, toISOString (t0 + 7 * msPerDay))"
    unfolding rangeForWeekISO_def mk by (simp add: p0 sd)
  have ex: "rangeForWeekISO ''2025-10-06'' (Some (- 240))
             = Inr (''2025-10-06T04:00:00.000Z'', ''2025-10-13T04:00:00.000Z'')"
    by code_simp
  from r p0 p7 ex show ?thesis by simp
qed

lemma week_2025_10_06:
  "pad 4 2025 @ ''-'' @ pad 2 10 @ ''-'' @ pad 2 6 = ''2025-10-06''"
  "MakeDay 2025 (10 - 1) 6 * msPerDay - (- 240) * 60000 = 1759723200000"
  "days_in_month 2025 10 = 31"
  "toISOString 1759723200000 = ''2025-10-06T04:00:00.000Z''"
  "toISOString (1759723200000 + 7 * msPerDay) = ''2025-10-13T04:00:00.000Z''"
  by code_simp+

theorem week_window_witness:
  "rangeForWeekISO ''2025-10-06'' (Some (- 240))
     = Inr (toISOString 1759723200000, toISOString (1759723200000 + 7 * msPerDay))
   \<and> toISOString 1759723200000 = ''2025-10-06T04:00:00.000Z''
   \<and> toISOString (1759723200000 + 7 * msPerDay) = ''2025-10-13T04:00:00.000Z''
   \<and> Date_parse ''2025-10-06T04:00:00.000Z'' = Some 1759723200000
   \<and> Date_parse ''2025-10-13T04:00:00.000Z'' = Some (1759723200000 + 7 * msPerDay)"
  using week_window [of 2025 10 6 1759723200000 "- 240"] week_2025_10_06
  by (simp add: msPerDay_def)

end
